theory Spec2Isabelle
  imports Complex_Main "HOL-Library.Word"
begin

text \<open>
  The track parsers \<open>parseGpx\<close> and \<open>parseKml\<close> and the video job client
  \<open>generateRouteVideo\<close> of the GPS route video generator, with the functions of the
  JavaScript library they call, and the properties the specification states of them.
\<close>

section \<open>JavaScript strings\<close>

text \<open>
  A JavaScript string is a sequence of 16-bit code units. ASCII literals of the source are
  written with \<open>js\<close>.
\<close>

type_synonym jschar = "16 word"
type_synonym jsstring = "jschar list"

definition js :: "string \<Rightarrow> jsstring" where
  "js s = map of_char s"

text \<open>
  The characters matched by \<^verbatim>\<open>\s\<close>, removed by \<^verbatim>\<open>trim\<close> and skipped by the numeric
  conversions: WhiteSpace (TAB, VT, FF, ZWNBSP and the space separators) and LineTerminator
  (LF, CR, LS, PS).
\<close>

definition isWhiteSpace :: "jschar \<Rightarrow> bool" where
  "isWhiteSpace c \<longleftrightarrow>
     c \<in> {0x0009, 0x000A, 0x000B, 0x000C, 0x000D, 0x0020, 0x00A0, 0x1680,
          0x2028, 0x2029, 0x202F, 0x205F, 0x3000, 0xFEFF}
     \<or> (0x2000 \<le> c \<and> c \<le> 0x200A)"

definition startsWith :: "jsstring \<Rightarrow> jsstring \<Rightarrow> bool" where
  "startsWith s pat \<longleftrightarrow> take (length pat) s = pat"

text \<open>\<^verbatim>\<open>String.prototype.includes\<close>: the pattern occurs at some position.\<close>

fun includesStr :: "jsstring \<Rightarrow> jsstring \<Rightarrow> bool" where
  "includesStr [] pat = (pat = [])"
| "includesStr (c # cs) pat = (startsWith (c # cs) pat \<or> includesStr cs pat)"

text \<open>\<^verbatim>\<open>String.prototype.trim\<close>.\<close>

definition trim :: "jsstring \<Rightarrow> jsstring" where
  "trim s = rev (dropWhile isWhiteSpace (rev (dropWhile isWhiteSpace s)))"

text \<open>\<^verbatim>\<open>split(',')\<close>: the pieces between the separator characters; never empty.\<close>

fun splitChar :: "jschar \<Rightarrow> jsstring \<Rightarrow> jsstring list" where
  "splitChar sep [] = [[]]"
| "splitChar sep (c # cs) =
     (if c = sep then [] # splitChar sep cs
      else (case splitChar sep cs of p # ps \<Rightarrow> (c # p) # ps | [] \<Rightarrow> [[c]]))"

section \<open>Regular expressions\<close>

text \<open>
  The fragment of the regular expressions used by the parsers: a pattern is a sequence of
  literal strings and greedy one-or-more repetitions of a character class, the latter
  optionally inside a capture group.
\<close>

datatype cls = Space | NotChar jschar

fun inCls :: "cls \<Rightarrow> jschar \<Rightarrow> bool" where
  "inCls Space c = isWhiteSpace c"
| "inCls (NotChar x) c = (c \<noteq> x)"

datatype node = Lit jsstring | Plus cls | CapturePlus cls

type_synonym regex = "node list"

text \<open>
  Greedy repetition with backtracking: the continuation is tried after the longest run
  first, then after shorter ones, down to a single character.
\<close>

fun backtrack :: "(nat \<Rightarrow> 'a option) \<Rightarrow> nat \<Rightarrow> 'a option" where
  "backtrack f 0 = None"
| "backtrack f (Suc k) = (case f (Suc k) of Some r \<Rightarrow> Some r | None \<Rightarrow> backtrack f k)"

text \<open>
  \<open>matchAt re s\<close> matches \<open>re\<close> at the start of \<open>s\<close>; the result is the list of captured
  strings and the length of the match.
\<close>

fun matchAt :: "regex \<Rightarrow> jsstring \<Rightarrow> (jsstring list \<times> nat) option" where
  "matchAt [] s = Some ([], 0)"
| "matchAt (Lit l # ns) s =
     (if startsWith s l
      then map_option (\<lambda>(caps, e). (caps, length l + e)) (matchAt ns (drop (length l) s))
      else None)"
| "matchAt (Plus c # ns) s =
     backtrack (\<lambda>k. map_option (\<lambda>(caps, e). (caps, k + e)) (matchAt ns (drop k s)))
       (length (takeWhile (inCls c) s))"
| "matchAt (CapturePlus c # ns) s =
     backtrack (\<lambda>k. map_option (\<lambda>(caps, e). (take k s # caps, k + e)) (matchAt ns (drop k s)))
       (length (takeWhile (inCls c) s))"

text \<open>
  Iteration of \<^verbatim>\<open>matchAll\<close> over a global pattern: the search moves on one code unit
  after a failure or after an empty match, and to the end of the match otherwise.
\<close>

function matchAll :: "regex \<Rightarrow> jsstring \<Rightarrow> jsstring list list" where
  "matchAll re [] = (case matchAt re [] of None \<Rightarrow> [] | Some (caps, e) \<Rightarrow> [caps])"
| "matchAll re (c # cs) =
     (case matchAt re (c # cs) of
        None \<Rightarrow> matchAll re cs
      | Some (caps, e) \<Rightarrow>
          caps # (if e = 0 then matchAll re cs else matchAll re (drop e (c # cs))))"
  by pat_completeness auto
termination
  by (relation "measure (\<lambda>(re, s). length s)") auto

text \<open>\<^verbatim>\<open>exec\<close> of a pattern without the global flag: the first position that matches.\<close>

fun exec :: "regex \<Rightarrow> jsstring \<Rightarrow> jsstring list option" where
  "exec re [] = map_option fst (matchAt re [])"
| "exec re (c # cs) =
     (case matchAt re (c # cs) of Some (caps, e) \<Rightarrow> Some caps | None \<Rightarrow> exec re cs)"

text \<open>
  Capture group \<open>i\<close> (from 1) of a match; \<open>None\<close> is \<^verbatim>\<open>undefined\<close>, which converts to
  the string \<^verbatim>\<open>"undefined"\<close>.
\<close>

definition matchGroup :: "jsstring list \<Rightarrow> nat \<Rightarrow> jsstring option" where
  "matchGroup caps i = (if 1 \<le> i \<and> i \<le> length caps then Some (caps ! (i - 1)) else None)"

fun toString :: "jsstring option \<Rightarrow> jsstring" where
  "toString None = js ''undefined''"
| "toString (Some s) = s"

text \<open>
  \<^verbatim>\<open>split\<close> with a pattern as separator. \<open>p\<close> is the piece collected since the last
  separator; an empty match splits between code units and never yields an empty piece.
\<close>

function splitLoop :: "regex \<Rightarrow> jsstring \<Rightarrow> jsstring \<Rightarrow> jsstring list" where
  "splitLoop re p [] = [p]"
| "splitLoop re p (c # cs) =
     (case matchAt re (c # cs) of
        None \<Rightarrow> splitLoop re (p @ [c]) cs
      | Some (caps, e) \<Rightarrow>
          if e = 0 then (if p = [] then splitLoop re [c] cs else p # caps @ splitLoop re [c] cs)
          else p # caps @ splitLoop re [] (drop e (c # cs)))"
  by pat_completeness auto
termination
  by (relation "measure (\<lambda>(re, p, s). length s)") auto

definition splitRe :: "regex \<Rightarrow> jsstring \<Rightarrow> jsstring list" where
  "splitRe re s =
     (if s = [] then (case matchAt re [] of Some r \<Rightarrow> [] | None \<Rightarrow> [[]])
      else splitLoop re [] s)"

section \<open>Numbers\<close>

text \<open>
  A Number is a binary64 value: \<^verbatim>\<open>NaN\<close>, an infinity, the negative zero, or \<open>Finite x\<close>
  with \<open>x\<close> the rational that the float denotes (\<open>Finite 0\<close> is the positive zero).
\<close>

datatype jsnum = NaN | PosInfinity | NegInfinity | NegZero | Finite rat

fun isNaN :: "jsnum option \<Rightarrow> bool" where
  "isNaN None = True"
| "isNaN (Some n) = (n = NaN)"

fun negate :: "jsnum \<Rightarrow> jsnum" where
  "negate NaN = NaN"
| "negate PosInfinity = NegInfinity"
| "negate NegInfinity = PosInfinity"
| "negate NegZero = Finite 0"
| "negate (Finite x) = (if x = 0 then NegZero else Finite (- x))"

text \<open>
  The Number value for the mathematical value \<open>a / b\<close>, with \<open>0 \<le> a\<close> and \<open>0 < b\<close>: the
  nearest binary64 value, the one with the even significand when two are as near, and the
  infinity when that value is \<open>2 ^ 1024\<close>. With \<open>e\<close> the binary exponent of \<open>a / b\<close>, not
  below that of the subnormal numbers, the binary64 values around \<open>a / b\<close> are the multiples
  of \<open>2 ^ (e - 52)\<close>.
\<close>

function bitLength :: "int \<Rightarrow> int" where
  "bitLength n = (if n \<le> 0 then 0 else 1 + bitLength (n div 2))"
  by pat_completeness auto
termination
  by (relation "measure nat") auto

declare bitLength.simps [simp del]

text \<open>The integer part of the binary logarithm of \<open>a / b\<close>, for \<open>0 < a\<close> and \<open>0 < b\<close>.\<close>

definition floorLog2 :: "int \<Rightarrow> int \<Rightarrow> int" where
  "floorLog2 a b =
     (if b \<le> a then bitLength (a div b) - 1 else - bitLength ((b + a - 1) div a - 1))"

definition pow2 :: "int \<Rightarrow> rat" where
  "pow2 e = (if 0 \<le> e then 2 ^ nat e else 1 / 2 ^ nat (- e))"

text \<open>The integer nearest to \<open>n / d\<close>, the even one of two that are as near.\<close>

definition roundHalfEven :: "int \<Rightarrow> int \<Rightarrow> int" where
  "roundHalfEven n d =
     (let f = n div d; r = n mod d
      in if 2 * r < d then f else if d < 2 * r then f + 1 else if even f then f else f + 1)"

definition roundBinary64 :: "int \<Rightarrow> int \<Rightarrow> jsnum" where
  "roundBinary64 a b =
     (if a \<le> 0 then Finite 0
      else
        let e = max (floorLog2 a b) (- 1022);
            m = (if e \<le> 52 then roundHalfEven (a * 2 ^ nat (52 - e)) b
                 else roundHalfEven a (b * 2 ^ nat (e - 52)));
            v = of_int m * pow2 (e - 52)
        in if 2 ^ 1024 \<le> v then PosInfinity else Finite v)"

text \<open>The Number value for \<open>m\<close> times the power \<open>x\<close> of ten.\<close>

definition numberOfDecimal :: "int \<Rightarrow> int \<Rightarrow> jsnum" where
  "numberOfDecimal m x =
     (if 0 \<le> x then roundBinary64 (m * 10 ^ nat x) 1 else roundBinary64 m (10 ^ nat (- x)))"

definition isDigit :: "jschar \<Rightarrow> bool" where
  "isDigit c \<longleftrightarrow> 0x30 \<le> c \<and> c \<le> 0x39"

definition digitsVal :: "jsstring \<Rightarrow> int" where
  "digitsVal ds = foldl (\<lambda>a c. 10 * a + (uint c - 0x30)) 0 ds"

text \<open>An optional sign: whether it is a minus, and the text after it.\<close>

fun optSign :: "jsstring \<Rightarrow> bool \<times> jsstring" where
  "optSign [] = (False, [])"
| "optSign (c # cs) =
     (if c = 0x2B then (False, cs) else if c = 0x2D then (True, cs) else (False, c # cs))"

text \<open>
  ExponentPart, when one follows the mantissa: the exponent and the text after it. An
  exponent indicator without digits is not part of the literal.
\<close>

definition exponentPart :: "jsstring \<Rightarrow> int \<times> jsstring" where
  "exponentPart s =
     (case s of
        [] \<Rightarrow> (0, s)
      | c # cs \<Rightarrow>
          if c = 0x65 \<or> c = 0x45 then
            (let (neg, t) = optSign cs; ds = takeWhile isDigit t
             in if ds = [] then (0, s)
                else ((if neg then - digitsVal ds else digitsVal ds),
                      drop (length ds) t))
          else (0, s))"

text \<open>
  The longest prefix that is a StrUnsignedDecimalLiteral (\<^verbatim>\<open>Infinity\<close>, or digits with an
  optional fraction and exponent): the Number value of its mathematical value, and the text
  after it.
\<close>

definition strUnsignedDecimalPrefix :: "jsstring \<Rightarrow> (jsnum \<times> jsstring) option" where
  "strUnsignedDecimalPrefix s =
     (if startsWith s (js ''Infinity'') then Some (PosInfinity, drop 8 s)
      else
        let ip = takeWhile isDigit s; r1 = drop (length ip) s;
            fp = (case r1 of [] \<Rightarrow> [] | c # cs \<Rightarrow> if c = 0x2E then takeWhile isDigit cs else []);
            hasDot = (case r1 of [] \<Rightarrow> False | c # cs \<Rightarrow> c = 0x2E)
        in if ip = [] \<and> fp = [] then None
           else
             let r2 = (if hasDot then drop (Suc (length fp)) r1 else r1);
                 (ex, r3) = exponentPart r2
             in Some (numberOfDecimal (digitsVal (ip @ fp)) (ex - int (length fp)), r3))"

definition strDecimalPrefix :: "jsstring \<Rightarrow> (jsnum \<times> jsstring) option" where
  "strDecimalPrefix s =
     (let (neg, t) = optSign s
      in map_option (\<lambda>(v, r). (if neg then negate v else v, r)) (strUnsignedDecimalPrefix t))"

text \<open>\<^verbatim>\<open>parseFloat\<close>: leading white space is skipped, text after the literal is ignored.\<close>

definition parseFloat :: "jsstring \<Rightarrow> jsnum" where
  "parseFloat s =
     (case strDecimalPrefix (dropWhile isWhiteSpace s) of Some (v, r) \<Rightarrow> v | None \<Rightarrow> NaN)"

text \<open>Literals in base 16, 8 and 2 (\<^verbatim>\<open>0x\<close>, \<^verbatim>\<open>0o\<close>, \<^verbatim>\<open>0b\<close>), which take no sign.\<close>

definition digitOf :: "jschar \<Rightarrow> int option" where
  "digitOf c =
     (if 0x30 \<le> c \<and> c \<le> 0x39 then Some (uint c - 0x30)
      else if 0x61 \<le> c \<and> c \<le> 0x66 then Some (uint c - 0x57)
      else if 0x41 \<le> c \<and> c \<le> 0x46 then Some (uint c - 0x37)
      else None)"

definition radixVal :: "int \<Rightarrow> jsstring \<Rightarrow> int option" where
  "radixVal b ds =
     (if ds \<noteq> [] \<and> list_all (\<lambda>c. case digitOf c of Some d \<Rightarrow> d < b | None \<Rightarrow> False) ds
      then Some (foldl (\<lambda>a c. b * a + the (digitOf c)) 0 ds)
      else None)"

definition nonDecimalIntegerLiteral :: "jsstring \<Rightarrow> int option" where
  "nonDecimalIntegerLiteral s =
     (case s of
        z # x # ds \<Rightarrow>
          if z \<noteq> 0x30 then None
          else if x = 0x78 \<or> x = 0x58 then radixVal 16 ds
          else if x = 0x6F \<or> x = 0x4F then radixVal 8 ds
          else if x = 0x62 \<or> x = 0x42 then radixVal 2 ds
          else None
      | _ \<Rightarrow> None)"

text \<open>
  \<^verbatim>\<open>Number\<close> applied to a string: the whole text, white space at both ends apart, must be
  a numeric literal; the empty text is 0.
\<close>

definition Number :: "jsstring \<Rightarrow> jsnum" where
  "Number s =
     (let t = trim s
      in if t = [] then Finite 0
         else (case nonDecimalIntegerLiteral t of
                 Some n \<Rightarrow> roundBinary64 n 1
               | None \<Rightarrow>
                   (case strDecimalPrefix t of
                      Some (v, r) \<Rightarrow> if r = [] then v else NaN
                    | None \<Rightarrow> NaN)))"

section \<open>The track parsers (\<^verbatim>\<open>src/src/App.tsx\<close>)\<close>

record Coordinate =
  lat :: jsnum
  lon :: jsnum

definition trkptRe :: regex where
  \<open>trkptRe =
     [Lit (js ''<trkpt''), Plus Space, Lit (js ''lat="''), CapturePlus (NotChar 0x22),
      Lit (js ''"''), Plus Space, Lit (js ''lon="''), CapturePlus (NotChar 0x22),
      Lit (js ''"'')]\<close>

definition gpxCoords :: "jsstring \<Rightarrow> Coordinate list" where
  "gpxCoords gpxString =
     map (\<lambda>m. \<lparr>lat = parseFloat (toString (matchGroup m 1)),
               lon = parseFloat (toString (matchGroup m 2))\<rparr>)
       (matchAll trkptRe gpxString)"

definition parseGpx :: "jsstring \<Rightarrow> jsstring + Coordinate list" where
  "parseGpx gpxString =
     (let coords = gpxCoords gpxString
      in if length coords = 0 then Inl (js ''No track points found in GPX file.'')
         else Inr coords)"

definition coordinatesRe :: regex where
  "coordinatesRe =
     [Lit (js ''<coordinates>''), CapturePlus (NotChar 0x3C), Lit (js ''</coordinates>'')]"

text \<open>
  One token of the coordinates block: \<^verbatim>\<open>[lon, lat] = pair.split(',').map(Number)\<close>, kept
  when neither is \<^verbatim>\<open>NaN\<close>; a missing second component is \<^verbatim>\<open>undefined\<close>.
\<close>

definition pairCoord :: "jsstring \<Rightarrow> Coordinate option" where
  "pairCoord pair =
     (let nums = map Number (splitChar 0x2C pair);
          lon = (case nums of [] \<Rightarrow> None | x # xs \<Rightarrow> Some x);
          lat = (case nums of x # y # ys \<Rightarrow> Some y | _ \<Rightarrow> None)
      in if \<not> isNaN lon \<and> \<not> isNaN lat then Some \<lparr>lat = the lat, lon = the lon\<rparr> else None)"

definition kmlCoords :: "jsstring \<Rightarrow> Coordinate list" where
  "kmlCoords kmlString =
     (case exec coordinatesRe kmlString of
        None \<Rightarrow> []
      | Some caps \<Rightarrow>
          (case matchGroup caps 1 of
             None \<Rightarrow> []
           | Some body \<Rightarrow>
               if body = [] then []
               else List.map_filter pairCoord (splitRe [Plus Space] (trim body))))"

definition parseKml :: "jsstring \<Rightarrow> jsstring + Coordinate list" where
  "parseKml kmlString =
     (let coords = kmlCoords kmlString
      in if length coords = 0 then Inl (js ''No coordinates found in KML file.'')
         else Inr coords)"

section \<open>The video job client (\<^verbatim>\<open>services/geminiService\<close>, in \<^verbatim>\<open>src/replit.md\<close>)\<close>

text \<open>
  What the client reads of an operation: the member \<^verbatim>\<open>done\<close> (here \<open>isDone\<close>) and the
  chain \<^verbatim>\<open>response?.generatedVideos?.[0]?.video?.uri\<close>. \<open>None\<close> is an absent member.
\<close>

record video =
  uri :: "jsstring option"

record generatedVideo =
  video :: "video option"

record videosResponse =
  generatedVideos :: "generatedVideo list option"

record operation =
  isDone :: "bool option"
  response :: "videosResponse option"

text \<open>A thrown value: an \<^verbatim>\<open>Error\<close> with its message, or anything else.\<close>

datatype thrown = Error jsstring | NotAnError

text \<open>
  The service is external: each call answers from a state \<open>'w\<close> of the outside world, which
  it may change, and either throws or returns an operation.
\<close>

record 'w service =
  generateVideos :: "jsstring \<Rightarrow> 'w \<Rightarrow> (thrown + operation) \<times> 'w"
  getVideosOperation :: "operation \<Rightarrow> 'w \<Rightarrow> (thrown + operation) \<times> 'w"

text \<open>The calls and waits a run performs, in order; \<open>Sleep\<close> carries the milliseconds.\<close>

datatype event = GenerateVideos | Sleep nat | GetVideosOperation

definition notDone :: "operation \<Rightarrow> bool" where
  "notDone operation \<longleftrightarrow> (case isDone operation of None \<Rightarrow> True | Some d \<Rightarrow> \<not> d)"

definition downloadLink :: "operation \<Rightarrow> jsstring option" where
  "downloadLink operation =
     Option.bind (response operation) (\<lambda>r.
     Option.bind (generatedVideos r) (\<lambda>vs.
     Option.bind (case vs of [] \<Rightarrow> None | v # rest \<Rightarrow> Some v) (\<lambda>v.
     Option.bind (video v) uri)))"

text \<open>
  The polling loop. It has no bound of its own, so the model takes the number of iterations
  it may run: \<open>None\<close> is a loop still polling when that number is used up.
\<close>

fun pollLoop ::
  "nat \<Rightarrow> 'w service \<Rightarrow> operation \<Rightarrow> 'w \<Rightarrow> event list \<Rightarrow> (thrown + operation) option \<times> event list"
where
  "pollLoop 0 svc operation w tr =
     (if notDone operation then (None, tr) else (Some (Inr operation), tr))"
| "pollLoop (Suc n) svc operation w tr =
     (if notDone operation then
        (case getVideosOperation svc operation w of
           (Inl err, w') \<Rightarrow> (Some (Inl err), tr @ [Sleep 10000, GetVideosOperation])
         | (Inr operation', w') \<Rightarrow>
             pollLoop n svc operation' w' (tr @ [Sleep 10000, GetVideosOperation]))
      else (Some (Inr operation), tr))"

text \<open>The \<^verbatim>\<open>catch\<close> block: the message of the error it throws in place of the caught one.\<close>

definition catchBlock :: "thrown \<Rightarrow> jsstring" where
  "catchBlock err =
     (case err of
        Error message \<Rightarrow>
          if includesStr message (js ''API key not valid'')
          then js ''The provided API Key is invalid. Please check your configuration.''
          else js ''Failed to generate video. The AI model may be busy or an error occurred.''
      | NotAnError \<Rightarrow>
          js ''Failed to generate video. The AI model may be busy or an error occurred.'')"

text \<open>
  \<open>generateRouteVideo n svc base64MapImage w\<close>: the outcome after at most \<open>n\<close> iterations of the loop
  and the events until then. \<open>Some (Inr link)\<close> is the returned link, \<open>Some (Inl message)\<close>
  the message of the thrown error, \<open>None\<close> a run that is still polling.
\<close>

definition generateRouteVideo ::
  "nat \<Rightarrow> 'w service \<Rightarrow> jsstring \<Rightarrow> 'w \<Rightarrow> (jsstring + jsstring) option \<times> event list"
where
  "generateRouteVideo n svc base64MapImage w =
     (case generateVideos svc base64MapImage w of
        (Inl err, w') \<Rightarrow> (Some (Inl (catchBlock err)), [GenerateVideos])
      | (Inr operation, w') \<Rightarrow>
          (case pollLoop n svc operation w' [GenerateVideos] of
             (None, tr) \<Rightarrow> (None, tr)
           | (Some (Inl err), tr) \<Rightarrow> (Some (Inl (catchBlock err)), tr)
           | (Some (Inr operation'), tr) \<Rightarrow>
               (case downloadLink operation' of
                  None \<Rightarrow>
                    (Some (Inl (catchBlock (Error
                       (js ''Video generation completed, but no download link was found.'')))), tr)
                | Some link \<Rightarrow>
                    if link = [] then
                      (Some (Inl (catchBlock (Error
                         (js ''Video generation completed, but no download link was found.'')))), tr)
                    else (Some (Inr link), tr))))"

section \<open>Track files as the specification describes them\<close>

text \<open>
  A track-point marker as the pattern of \<open>parseGpx\<close> reads it: \<^verbatim>\<open><trkpt\<close>, white space,
  \<^verbatim>\<open>lat="\<close>, the latitude text, \<^verbatim>\<open>"\<close>, white space, \<^verbatim>\<open>lon="\<close>, the longitude text,
  \<^verbatim>\<open>"\<close>.
\<close>

record trkpt =
  ws1 :: jsstring
  latText :: jsstring
  ws2 :: jsstring
  lonText :: jsstring

definition trkptText :: "trkpt \<Rightarrow> jsstring" where
  \<open>trkptText m =
     js ''<trkpt'' @ ws1 m @ js ''lat="'' @ latText m @ js ''"'' @ ws2 m @ js ''lon="''
       @ lonText m @ js ''"''\<close>

definition wellFormed :: "trkpt \<Rightarrow> bool" where
  "wellFormed m \<longleftrightarrow>
     ws1 m \<noteq> [] \<and> list_all isWhiteSpace (ws1 m) \<and> ws2 m \<noteq> [] \<and> list_all isWhiteSpace (ws2 m)
     \<and> latText m \<noteq> [] \<and> 0x22 \<notin> set (latText m)
     \<and> lonText m \<noteq> [] \<and> 0x22 \<notin> set (lonText m)"

text \<open>A GPX text: markers, each after a stretch of other text, and the text after the last.\<close>

fun gpxText :: "(jsstring \<times> trkpt) list \<Rightarrow> jsstring \<Rightarrow> jsstring" where
  "gpxText [] tail = tail"
| "gpxText ((gap, m) # items) tail = gap @ trkptText m @ gpxText items tail"

text \<open>
  A decimal numeral, as the attributes of a GPX file hold: an optional minus sign, digits,
  and an optional fraction.
\<close>

record decimal =
  negative :: bool
  intDigits :: "nat list"
  fracDigits :: "nat list"

definition digitChar :: "nat \<Rightarrow> jschar" where
  "digitChar d = of_nat (0x30 + d)"

definition digitChars :: "nat list \<Rightarrow> jsstring" where
  "digitChars ds = map digitChar ds"

definition fromDigits :: "nat list \<Rightarrow> int" where
  "fromDigits ds = foldl (\<lambda>a d. 10 * a + int d) 0 ds"

definition decimalText :: "decimal \<Rightarrow> jsstring" where
  "decimalText d =
     (if negative d then [0x2D] else []) @ digitChars (intDigits d)
       @ (if fracDigits d = [] then [] else 0x2E # digitChars (fracDigits d))"

text \<open>
  The Number value of a numeral: the value of its digits over the power of ten of its
  fraction, rounded to binary64, with the sign of the numeral.
\<close>

definition decimalNumber :: "decimal \<Rightarrow> jsnum" where
  "decimalNumber d =
     (let v = roundBinary64 (fromDigits (intDigits d @ fracDigits d)) (10 ^ length (fracDigits d))
      in if negative d then negate v else v)"

definition validDecimal :: "decimal \<Rightarrow> bool" where
  "validDecimal d \<longleftrightarrow>
     intDigits d \<noteq> [] \<and> list_all (\<lambda>x. x < 10) (intDigits d)
     \<and> list_all (\<lambda>x. x < 10) (fracDigits d)"

text \<open>
  A coordinates block as the pattern of \<open>parseKml\<close> reads it: \<^verbatim>\<open><coordinates>\<close>, a content
  that is not empty and has no \<^verbatim>\<open><\<close>, and \<^verbatim>\<open></coordinates>\<close>. \<open>coordinatesBlockAt s\<close>: such
  a block starts \<open>s\<close>; \<open>noBlockIn pre rest\<close>: none starts inside \<open>pre\<close> when \<open>rest\<close> follows.
\<close>

definition kmlBlock :: "jsstring \<Rightarrow> jsstring" where
  "kmlBlock body = js ''<coordinates>'' @ body @ js ''</coordinates>''"

definition coordinatesBlockAt :: "jsstring \<Rightarrow> bool" where
  "coordinatesBlockAt s \<longleftrightarrow>
     startsWith s (js ''<coordinates>'')
     \<and> (let content = takeWhile (\<lambda>c. c \<noteq> 0x3C) (drop 13 s)
        in content \<noteq> [] \<and> startsWith (drop (13 + length content) s) (js ''</coordinates>''))"

fun noBlockIn :: "jsstring \<Rightarrow> jsstring \<Rightarrow> bool" where
  "noBlockIn [] rest = True"
| "noBlockIn (c # cs) rest = (\<not> coordinatesBlockAt (c # cs @ rest) \<and> noBlockIn cs rest)"

text \<open>
  The content of a block: tokens, each after a stretch of white space, and the white space
  after the last. A token is not empty and has neither white space nor \<^verbatim>\<open><\<close>; the white
  space before a token may be empty for the first one only.
\<close>

fun bodyText :: "(jsstring \<times> jsstring) list \<Rightarrow> jsstring \<Rightarrow> jsstring" where
  "bodyText [] trail = trail"
| "bodyText ((w, t) # items) trail = w @ t @ bodyText items trail"

definition isToken :: "jsstring \<Rightarrow> bool" where
  "isToken t \<longleftrightarrow> t \<noteq> [] \<and> \<not> list_ex isWhiteSpace t \<and> 0x3C \<notin> set t"

definition wellSpaced :: "(jsstring \<times> jsstring) list \<Rightarrow> jsstring \<Rightarrow> bool" where
  "wellSpaced items trail \<longleftrightarrow>
     list_all (\<lambda>(w, t). list_all isWhiteSpace w \<and> isToken t) items
     \<and> list_all (\<lambda>(w, t). w \<noteq> []) (tl items)
     \<and> list_all isWhiteSpace trail"

text \<open>
  A token both of whose first two comma-separated components convert to a number.
\<close>

definition numericPair :: "jsstring \<Rightarrow> bool" where
  "numericPair t \<longleftrightarrow>
     2 \<le> length (splitChar 0x2C t)
     \<and> Number (splitChar 0x2C t ! 0) \<noteq> NaN \<and> Number (splitChar 0x2C t ! 1) \<noteq> NaN"

text \<open>
  A token \<^verbatim>\<open>lon,lat\<close> or \<^verbatim>\<open>lon,lat,alt\<close> with decimal numerals for longitude and latitude.
\<close>

record lonLatAlt =
  lonNum :: decimal
  latNum :: decimal
  altText :: "jsstring option"

definition tupleText :: "lonLatAlt \<Rightarrow> jsstring" where
  "tupleText k =
     decimalText (lonNum k) @ 0x2C # decimalText (latNum k)
       @ (case altText k of None \<Rightarrow> [] | Some a \<Rightarrow> 0x2C # a)"

definition validTuple :: "lonLatAlt \<Rightarrow> bool" where
  "validTuple k \<longleftrightarrow>
     validDecimal (lonNum k) \<and> validDecimal (latNum k)
     \<and> (case altText k of None \<Rightarrow> True
         | Some a \<Rightarrow> \<not> list_ex isWhiteSpace a \<and> 0x3C \<notin> set a)"

section \<open>Pattern matching\<close>

lemma startsWith_append [simp]: "startsWith (l @ s) l"
  by (simp add: startsWith_def)

lemma matchAt_Lit:
  "matchAt (Lit l # ns) (l @ s) = map_option (\<lambda>(caps, e). (caps, length l + e)) (matchAt ns s)"
  by simp

lemma matchAt_Lit_None: "\<not> startsWith s l \<Longrightarrow> matchAt (Lit l # ns) s = None"
  by simp

lemma takeWhile_run:
  "list_all P xs \<Longrightarrow> s = [] \<or> \<not> P (hd s) \<Longrightarrow> takeWhile P (xs @ s) = xs"
  by (induction xs) (auto simp: takeWhile_eq_Nil_iff)

lemma backtrack_longest: "n \<noteq> 0 \<Longrightarrow> f n = Some r \<Longrightarrow> backtrack f n = Some r"
  by (cases n) simp_all

lemma matchAt_Plus:
  assumes "xs \<noteq> []" "list_all (inCls c) xs" "s = [] \<or> \<not> inCls c (hd s)"
    and "matchAt ns s = Some (caps, e)"
  shows "matchAt (Plus c # ns) (xs @ s) = Some (caps, length xs + e)"
  using assms(1,4) by (simp add: takeWhile_run [OF assms(2,3)] backtrack_longest)

lemma matchAt_CapturePlus:
  assumes "xs \<noteq> []" "list_all (inCls c) xs" "s = [] \<or> \<not> inCls c (hd s)"
    and "matchAt ns s = Some (caps, e)"
  shows "matchAt (CapturePlus c # ns) (xs @ s) = Some (xs # caps, length xs + e)"
  using assms(1,4) by (simp add: takeWhile_run [OF assms(2,3)] backtrack_longest)

lemma notQuote_all: "0x22 \<notin> set xs \<Longrightarrow> list_all (inCls (NotChar 0x22)) xs"
  by (induction xs) auto

lemma space_all: "list_all isWhiteSpace xs \<Longrightarrow> list_all (inCls Space) xs"
  by (induction xs) auto

declare matchAt.simps(2,3,4) [simp del]

lemma matchAt_trkpt:
  assumes "wellFormed m"
  shows "matchAt trkptRe (trkptText m @ rest) = Some ([latText m, lonText m], length (trkptText m))"
proof -
  have q: \<open>\<And>s. js ''"'' @ s = [] \<or> \<not> inCls (NotChar 0x22) (hd (js ''"'' @ s))\<close>
    by (simp add: js_def)
  have l1: \<open>\<And>s. js ''lat="'' @ s = [] \<or> \<not> inCls Space (hd (js ''lat="'' @ s))\<close>
    by (simp add: js_def isWhiteSpace_def)
  have l2: \<open>\<And>s. js ''lon="'' @ s = [] \<or> \<not> inCls Space (hd (js ''lon="'' @ s))\<close>
    by (simp add: js_def isWhiteSpace_def)
  have w: "ws1 m \<noteq> []" "list_all (inCls Space) (ws1 m)" "ws2 m \<noteq> []" "list_all (inCls Space) (ws2 m)"
    "latText m \<noteq> []" "list_all (inCls (NotChar 0x22)) (latText m)"
    "lonText m \<noteq> []" "list_all (inCls (NotChar 0x22)) (lonText m)"
    using assms by (simp_all add: wellFormed_def notQuote_all space_all)
  have 1: \<open>matchAt [Lit (js ''"'')] (js ''"'' @ rest) = Some ([], length (js ''"''))\<close>
    by (simp add: matchAt_Lit)
  note 2 = matchAt_CapturePlus [OF w(7,8) q 1]
  have 3: \<open>matchAt [Lit (js ''lon="''), CapturePlus (NotChar 0x22), Lit (js ''"'')]
      (js ''lon="'' @ lonText m @ js ''"'' @ rest) =
      Some ([lonText m], length (js ''lon="'' @ lonText m @ js ''"''))\<close>
    by (simp add: matchAt_Lit 2)
  note 4 = matchAt_Plus [OF w(3,4) l2 3]
  have 5: \<open>matchAt [Lit (js ''"''), Plus Space, Lit (js ''lon="''), CapturePlus (NotChar 0x22), Lit (js ''"'')]
      (js ''"'' @ ws2 m @ js ''lon="'' @ lonText m @ js ''"'' @ rest) =
      Some ([lonText m], length (js ''"'' @ ws2 m @ js ''lon="'' @ lonText m @ js ''"''))\<close>
    by (simp add: matchAt_Lit 4)
  note 6 = matchAt_CapturePlus [OF w(5,6) q 5]
  have 7: \<open>matchAt [Lit (js ''lat="''), CapturePlus (NotChar 0x22), Lit (js ''"''), Plus Space, Lit (js ''lon="''), CapturePlus (NotChar 0x22), Lit (js ''"'')]
      (js ''lat="'' @ latText m @ js ''"'' @ ws2 m @ js ''lon="'' @ lonText m @ js ''"'' @ rest) =
      Some ([latText m, lonText m], length (js ''lat="'' @ latText m @ js ''"'' @ ws2 m @ js ''lon="'' @ lonText m @ js ''"''))\<close>
    by (simp add: matchAt_Lit 6)
  note 8 = matchAt_Plus [OF w(1,2) l1 7]
  show ?thesis
    by (simp add: trkptRe_def trkptText_def matchAt_Lit 8)
qed


lemma matchAll_match:
  "s \<noteq> [] \<Longrightarrow> matchAt re s = Some (caps, e) \<Longrightarrow> e \<noteq> 0 \<Longrightarrow>
     matchAll re s = caps # matchAll re (drop e s)"
  by (cases s) simp_all

lemma matchAll_nomatch: "matchAt re (c # cs) = None \<Longrightarrow> matchAll re (c # cs) = matchAll re cs"
  by simp

lemma straddle:
  assumes "pat \<noteq> []" "hd pat \<notin> set (tl pat)" "\<not> startsWith g pat" "g \<noteq> []"
    and "rest = [] \<or> hd rest = hd pat"
  shows "\<not> startsWith (g @ rest) pat"
proof
  assume "startsWith (g @ rest) pat"
  then have eq: "take (length pat) g @ take (length pat - length g) rest = pat"
    by (simp add: startsWith_def)
  show False
  proof (cases "length pat \<le> length g")
    case True
    with eq assms(3) show False by (simp add: startsWith_def)
  next
    case False
    then have g: "take (length pat) g = g" by simp
    from eq g have pat: "pat = g @ take (length pat - length g) rest" by simp
    have "take (length pat - length g) rest \<noteq> []"
      using pat False by (metis append_Nil2 order_refl)
    then have r: "rest \<noteq> []" and h: "hd (take (length pat - length g) rest) = hd rest"
      by (auto simp: hd_take)
    have "hd rest \<in> set (tl pat)"
      using pat assms(4) \<open>take (length pat - length g) rest \<noteq> []\<close> h
      by (metis hd_in_set tl_append2 Un_iff set_append)
    with assms(2,5) r show False by simp
  qed
qed

lemma matchAll_skip:
  assumes "hd pat \<notin> set (tl pat)" "pat \<noteq> []" "rest = [] \<or> hd rest = hd pat"
  shows "\<not> includesStr gap pat \<Longrightarrow> matchAll (Lit pat # ns) (gap @ rest) = matchAll (Lit pat # ns) rest"
proof (induction gap)
  case Nil
  then show ?case by simp
next
  case (Cons c gap)
  then have a: "\<not> startsWith (c # gap) pat" and b: "\<not> includesStr gap pat"
    by simp_all
  have "\<not> startsWith ((c # gap) @ rest) pat"
    using straddle [OF assms(2,1) a _ assms(3)] by simp
  then have "matchAt (Lit pat # ns) (c # gap @ rest) = None"
    by (simp add: matchAt_Lit_None)
  then show ?case
    using Cons.IH [OF b] by (simp add: matchAll_nomatch)
qed

lemma gpx_matchAll:
  assumes "list_all (\<lambda>(gap, m). \<not> includesStr gap (js ''<trkpt'') \<and> wellFormed m) items"
    and "\<not> includesStr tail (js ''<trkpt'')"
  shows "matchAll trkptRe (gpxText items tail) = map (\<lambda>(gap, m). [latText m, lonText m]) items"
  using assms(1)
proof (induction items)
  case Nil
  have "matchAll trkptRe (tail @ []) = matchAll trkptRe []"
    unfolding trkptRe_def by (rule matchAll_skip [OF _ _ _ assms(2)]) (simp_all add: js_def)
  then show ?case by (simp add: trkptRe_def matchAt_Lit_None startsWith_def js_def)
next
  case (Cons a items)
  obtain gap m where a: "a = (gap, m)" by (cases a)
  from Cons.prems a have gap: "\<not> includesStr gap (js ''<trkpt'')" and m: "wellFormed m"
    and rest: "list_all (\<lambda>(gap, m). \<not> includesStr gap (js ''<trkpt'') \<and> wellFormed m) items"
    by simp_all
  let ?rest = "gpxText items tail"
  have "matchAll trkptRe (gap @ trkptText m @ ?rest) = matchAll trkptRe (trkptText m @ ?rest)"
    unfolding trkptRe_def
    by (rule matchAll_skip [OF _ _ _ gap]) (simp_all add: js_def trkptText_def)
  also have "\<dots> = [latText m, lonText m] # matchAll trkptRe (drop (length (trkptText m)) (trkptText m @ ?rest))"
    by (rule matchAll_match [OF _ matchAt_trkpt [OF m]]) (simp_all add: trkptText_def js_def)
  finally show ?case
    using Cons.IH [OF rest] a by simp
qed

subsection \<open>The first coordinates block\<close>

lemma backtrack_Some: "backtrack f n = Some r \<Longrightarrow> \<exists>k. 0 < k \<and> k \<le> n \<and> f k = Some r"
proof (induction n)
  case 0
  then show ?case by simp
next
  case (Suc n)
  then show ?case
    by (cases "f (Suc n)") (auto intro: le_SucI)
qed

lemma matchAt_Lit_Some:
  "matchAt (Lit l # ns) s = Some r \<Longrightarrow> startsWith s l"
  by (simp add: matchAt.simps split: if_splits)

lemma takeWhile_nth: "k < length (takeWhile P xs) \<Longrightarrow> P (xs ! k)"
  by (metis nth_mem set_takeWhileD takeWhile_nth)

lemma coordinatesRe_sound:
  assumes "matchAt coordinatesRe s = Some r"
  shows "coordinatesBlockAt s"
proof -
  let ?open = "js ''<coordinates>''" and ?close = "js ''</coordinates>''"
  let ?s' = "drop (length ?open) s"
  let ?n = "length (takeWhile (inCls (NotChar 0x3C)) ?s')"
  have st: "startsWith s ?open"
    using assms unfolding coordinatesRe_def by (rule matchAt_Lit_Some)
  then have "matchAt [CapturePlus (NotChar 0x3C), Lit ?close] ?s' \<noteq> None"
    using assms by (auto simp: coordinatesRe_def matchAt.simps)
  then obtain r' where "backtrack (\<lambda>k. map_option (\<lambda>(caps, e). (take k ?s' # caps, k + e))
        (matchAt [Lit ?close] (drop k ?s'))) ?n = Some r'"
    by (auto simp: matchAt.simps)
  from backtrack_Some [OF this] obtain k where k: "0 < k" "k \<le> ?n"
    and m: "matchAt [Lit ?close] (drop k ?s') \<noteq> None"
    by auto
  from m have cl: "startsWith (drop k ?s') ?close"
    by (auto simp: matchAt.simps split: if_splits)
  have "k = ?n"
  proof (rule ccontr)
    assume "k \<noteq> ?n"
    with k have lt: "k < ?n" by simp
    then have "inCls (NotChar 0x3C) (?s' ! k)" by (rule takeWhile_nth)
    moreover have "k < length ?s'"
      using lt length_takeWhile_le [of "inCls (NotChar 0x3C)" ?s'] by simp
    then have "hd (drop k ?s') = ?s' ! k" by (rule hd_drop_conv_nth)
    moreover have "hd (drop k ?s') = 0x3C"
      using cl by (cases "drop k ?s'") (auto simp: startsWith_def js_def)
    ultimately show False by simp
  qed
  moreover have "inCls (NotChar 0x3C) = (\<lambda>c. c \<noteq> 0x3C)" by (rule ext) simp
  moreover have len: "length ?open = 13" by (simp add: js_def)
  ultimately have kn: "k = length (takeWhile (\<lambda>c. c \<noteq> 0x3C) (drop 13 s))"
    and d: "drop k ?s' = drop (13 + k) s"
    by (simp_all add: add.commute)
  from kn k(1) have "takeWhile (\<lambda>c. c \<noteq> 0x3C) (drop 13 s) \<noteq> []"
    by auto
  moreover have "startsWith (drop (13 + length (takeWhile (\<lambda>c. c \<noteq> 0x3C) (drop 13 s))) s) ?close"
    using cl d kn by simp
  ultimately show ?thesis
    unfolding coordinatesBlockAt_def Let_def using st by simp
qed

lemma matchAt_block:
  assumes "body \<noteq> []" "0x3C \<notin> set body"
  shows "\<exists>e. matchAt coordinatesRe (kmlBlock body @ post) = Some ([body], e)"
proof -
  have q: "\<And>s. js ''</coordinates>'' @ s = [] \<or> \<not> inCls (NotChar 0x3C) (hd (js ''</coordinates>'' @ s))"
    by (simp add: js_def)
  have b: "list_all (inCls (NotChar 0x3C)) body"
    using assms(2) by (induction body) auto
  have 1: "matchAt [Lit (js ''</coordinates>'')] (js ''</coordinates>'' @ post) =
      Some ([], length (js ''</coordinates>''))"
    by (simp add: matchAt_Lit)
  note 2 = matchAt_CapturePlus [OF assms(1) b q 1]
  show ?thesis
    by (simp add: coordinatesRe_def kmlBlock_def matchAt_Lit 2)
qed

lemma exec_skip:
  "noBlockIn pre rest \<Longrightarrow> exec coordinatesRe (pre @ rest) = exec coordinatesRe rest"
proof (induction pre)
  case Nil
  then show ?case by simp
next
  case (Cons c pre)
  then have "matchAt coordinatesRe (c # pre @ rest) = None"
    using coordinatesRe_sound [of "c # pre @ rest"] by (cases "matchAt coordinatesRe (c # pre @ rest)") auto
  then show ?case
    using Cons by simp
qed

lemma exec_block:
  assumes "noBlockIn pre (kmlBlock body @ post)" "body \<noteq> []" "0x3C \<notin> set body"
  shows "exec coordinatesRe (pre @ kmlBlock body @ post) = Some [body]"
proof -
  obtain e where e: "matchAt coordinatesRe (kmlBlock body @ post) = Some ([body], e)"
    using matchAt_block [OF assms(2,3)] by blast
  obtain c cs where c: "kmlBlock body @ post = c # cs"
    by (cases "kmlBlock body @ post") (auto simp: kmlBlock_def js_def)
  have "exec coordinatesRe (kmlBlock body @ post) = Some [body]"
    using e unfolding c by simp
  then show ?thesis
    by (simp add: exec_skip [OF assms(1)])
qed

lemma kmlCoords_block:
  assumes "noBlockIn pre (kmlBlock body @ post)" "body \<noteq> []" "0x3C \<notin> set body"
  shows "kmlCoords (pre @ kmlBlock body @ post) =
     List.map_filter pairCoord (splitRe [Plus Space] (trim body))"
  using assms(2) by (simp add: kmlCoords_def exec_block [OF assms] matchGroup_def)

lemma noBlockIn_includes:
  assumes "rest = [] \<or> hd rest = 0x3C"
  shows "\<not> includesStr pre (js ''<coordinates>'') \<Longrightarrow> noBlockIn pre rest"
proof (induction pre)
  case Nil
  then show ?case by simp
next
  case (Cons c pre)
  then have a: "\<not> startsWith (c # pre) (js ''<coordinates>'')"
    and b: "\<not> includesStr pre (js ''<coordinates>'')"
    by simp_all
  have "\<not> startsWith ((c # pre) @ rest) (js ''<coordinates>'')"
    by (rule straddle [OF _ _ a]) (simp_all add: js_def assms)
  then show ?case
    using Cons.IH [OF b] by (simp add: coordinatesBlockAt_def)
qed


subsection \<open>Trimming and splitting the block\<close>

lemma inCls_Space: "inCls Space = isWhiteSpace"
  by (rule ext) simp

lemma matchAt_Space:
  "matchAt [Plus Space] s =
     (if takeWhile isWhiteSpace s = [] then None
      else Some ([], length (takeWhile isWhiteSpace s)))"
proof (cases "length (takeWhile isWhiteSpace s)")
  case 0
  then show ?thesis by (simp add: matchAt.simps inCls_Space)
next
  case (Suc n)
  then have "takeWhile isWhiteSpace s \<noteq> []" by auto
  then show ?thesis using Suc by (simp add: matchAt.simps inCls_Space)
qed

lemma splitLoop_token:
  "\<not> list_ex isWhiteSpace t \<Longrightarrow>
     splitLoop [Plus Space] p (t @ s) = splitLoop [Plus Space] (p @ t) s"
  by (induction t arbitrary: p) (simp_all add: matchAt_Space)

lemma splitLoop_space:
  assumes "w \<noteq> []" "list_all isWhiteSpace w" "s = [] \<or> \<not> isWhiteSpace (hd s)"
  shows "splitLoop [Plus Space] p (w @ s) = p # splitLoop [Plus Space] [] s"
proof -
  obtain c cs where w: "w = c # cs" using assms(1) by (cases w) auto
  have tw: "takeWhile isWhiteSpace (c # cs @ s) = c # cs"
    using takeWhile_run [OF assms(2,3)] w by simp
  have "matchAt [Plus Space] (c # cs @ s) = Some ([], Suc (length cs))"
    unfolding matchAt_Space tw by simp
  then show ?thesis
    unfolding w by simp
qed

lemma bodyText_trail: "bodyText items trail = bodyText items [] @ trail"
  by (induction items) auto

lemma isToken_hd: "isToken t \<Longrightarrow> \<not> isWhiteSpace (hd (t @ s))"
  by (cases t) (auto simp: isToken_def list_ex_iff)

lemma splitLoop_body:
  assumes "list_all (\<lambda>(w, t). w \<noteq> [] \<and> list_all isWhiteSpace w \<and> isToken t) items"
    and "\<not> list_ex isWhiteSpace t0"
  shows "splitLoop [Plus Space] p (t0 @ bodyText items []) = (p @ t0) # map snd items"
  using assms
proof (induction items arbitrary: p t0)
  case Nil
  then show ?case by (simp add: splitLoop_token [of t0 p "[]", simplified])
next
  case (Cons a items)
  obtain w t where a: "a = (w, t)" by (cases a)
  from Cons.prems a have w: "w \<noteq> []" "list_all isWhiteSpace w" and t: "isToken t"
    and rest: "list_all (\<lambda>(w, t). w \<noteq> [] \<and> list_all isWhiteSpace w \<and> isToken t) items"
    by simp_all
  have nt: "\<not> list_ex isWhiteSpace t" using t by (simp add: isToken_def)
  have "splitLoop [Plus Space] p (t0 @ w @ t @ bodyText items []) =
      splitLoop [Plus Space] (p @ t0) (w @ t @ bodyText items [])"
    by (rule splitLoop_token [OF Cons.prems(2)])
  also have "\<dots> = (p @ t0) # splitLoop [Plus Space] [] (t @ bodyText items [])"
    by (rule splitLoop_space [OF w]) (simp add: isToken_hd [OF t])
  also have "splitLoop [Plus Space] [] (t @ bodyText items []) = ([] @ t) # map snd items"
    by (rule Cons.IH [OF rest nt])
  finally show ?case by (simp add: a)
qed

lemma dropWhile_run:
  "list_all P xs \<Longrightarrow> s = [] \<or> \<not> P (hd s) \<Longrightarrow> dropWhile P (xs @ s) = s"
  by (induction xs) (auto simp: dropWhile_eq_self_iff)

lemma trim_inner:
  assumes "list_all isWhiteSpace a" "list_all isWhiteSpace b"
    and "s \<noteq> []" "\<not> isWhiteSpace (hd s)" "\<not> isWhiteSpace (last s)"
  shows "trim (a @ s @ b) = s"
proof -
  have 1: "dropWhile isWhiteSpace (a @ s @ b) = s @ b"
    by (rule dropWhile_run [OF assms(1)]) (simp add: assms(3,4))
  have rb: "list_all isWhiteSpace (rev b)" using assms(2) by (simp add: list_all_iff)
  have "dropWhile isWhiteSpace (rev b @ rev s) = rev s"
    by (rule dropWhile_run [OF rb]) (simp add: assms(3,5) hd_rev)
  then show ?thesis
    by (simp add: trim_def 1)
qed

lemma trim_space: "list_all isWhiteSpace a \<Longrightarrow> trim a = []"
proof -
  assume "list_all isWhiteSpace a"
  then have d: "dropWhile isWhiteSpace a = []"
    by (induction a) auto
  show ?thesis
    unfolding trim_def d by simp
qed

lemma last_body:
  assumes "list_all (\<lambda>(w, t). list_all isWhiteSpace w \<and> isToken t) items" "isToken t0"
  shows "\<not> isWhiteSpace (last (t0 @ bodyText items []))"
  using assms
proof (induction items arbitrary: t0)
  case Nil
  then show ?case by (auto simp: isToken_def list_ex_iff)
next
  case (Cons a items)
  obtain w t where a: "a = (w, t)" by (cases a)
  from Cons.prems a have t: "isToken t"
    and rest: "list_all (\<lambda>(w, t). list_all isWhiteSpace w \<and> isToken t) items"
    by simp_all
  have ne: "t @ bodyText items [] \<noteq> []" using t by (simp add: isToken_def)
  have "last (t0 @ w @ t @ bodyText items []) = last (t @ bodyText items [])"
    using ne by (simp add: last_append)
  then show ?case
    using Cons.IH [OF rest t] by (simp add: a)
qed

lemma split_body:
  assumes "wellSpaced items trail"
  shows "splitRe [Plus Space] (trim (bodyText items trail)) =
     (if items = [] then [[]] else map snd items)"
proof (cases items)
  case Nil
  then show ?thesis
    using assms by (simp add: wellSpaced_def trim_space splitRe_def matchAt_Space)
next
  case (Cons a rest)
  obtain w t where a: "a = (w, t)" by (cases a)
  from assms Cons a have w: "list_all isWhiteSpace w" and t: "isToken t"
    and r1: "list_all (\<lambda>(w, t). list_all isWhiteSpace w \<and> isToken t) rest"
    and r2: "list_all (\<lambda>(w, t). w \<noteq> []) rest"
    and tr: "list_all isWhiteSpace trail"
    by (simp_all add: wellSpaced_def)
  have r: "list_all (\<lambda>(w, t). w \<noteq> [] \<and> list_all isWhiteSpace w \<and> isToken t) rest"
    using r1 r2 by (auto simp: list_all_iff)
  let ?inner = "t @ bodyText rest []"
  have ne: "?inner \<noteq> []" using t by (simp add: isToken_def)
  have "bodyText items trail = w @ ?inner @ trail"
    using bodyText_trail [of rest trail] by (simp add: Cons a)
  then have "trim (bodyText items trail) = ?inner"
    using trim_inner [OF w tr ne isToken_hd [OF t] last_body [OF r1 t]] by simp
  moreover have "splitLoop [Plus Space] [] ?inner = ([] @ t) # map snd rest"
    by (rule splitLoop_body [OF r]) (use t in \<open>simp add: isToken_def\<close>)
  moreover have "t \<noteq> []" using t by (simp add: isToken_def)
  ultimately show ?thesis
    by (simp add: splitRe_def Cons a)
qed

subsection \<open>Tokens\<close>

lemma pairCoord_eq:
  "pairCoord t =
     (if numericPair t
      then Some \<lparr>lat = Number (splitChar 0x2C t ! 1), lon = Number (splitChar 0x2C t ! 0)\<rparr>
      else None)"
proof (cases "splitChar 0x2C t")
  case Nil
  then show ?thesis by (simp add: pairCoord_def numericPair_def)
next
  case (Cons x xs)
  then show ?thesis
    by (cases xs) (simp_all add: pairCoord_def numericPair_def)
qed

lemma map_filter_pairCoord:
  "List.map_filter pairCoord ts =
     map (\<lambda>t. \<lparr>lat = Number (splitChar 0x2C t ! 1), lon = Number (splitChar 0x2C t ! 0)\<rparr>)
       (filter numericPair ts)"
  by (induction ts) (simp_all add: List.map_filter_simps pairCoord_eq)

lemma pairCoord_empty: "pairCoord [] = None"
  by (simp add: pairCoord_eq numericPair_def)

lemma space_no_lt: "list_all isWhiteSpace w \<Longrightarrow> 0x3C \<notin> set w"
  by (induction w) (auto simp: isWhiteSpace_def)

lemma bodyText_no_lt:
  "list_all (\<lambda>(w, t). list_all isWhiteSpace w \<and> isToken t) items \<Longrightarrow>
     list_all isWhiteSpace trail \<Longrightarrow> 0x3C \<notin> set (bodyText items trail)"
  by (induction items) (auto simp: isToken_def space_no_lt)

lemma kmlCoords_tokens:
  assumes "noBlockIn pre (kmlBlock (bodyText items trail) @ post)"
    and "wellSpaced items trail" and "bodyText items trail \<noteq> []"
  shows "kmlCoords (pre @ kmlBlock (bodyText items trail) @ post) =
     List.map_filter pairCoord (map snd items)"
proof -
  have "0x3C \<notin> set (bodyText items trail)"
    using assms(2) by (simp add: wellSpaced_def bodyText_no_lt)
  from kmlCoords_block [OF assms(1,3) this] show ?thesis
    by (simp add: split_body [OF assms(2)] List.map_filter_simps pairCoord_empty)
qed


section \<open>Decimal numerals\<close>

text \<open>The equations that evaluate the rounding to binary64.\<close>

lemmas num_simps =
  numberOfDecimal_def roundBinary64_def floorLog2_def pow2_def roundHalfEven_def
  bitLength.simps Let_def

lemma digitChar_cases:
  assumes "d < 10"
  shows "digitChar d \<in> {0x30, 0x31, 0x32, 0x33, 0x34, 0x35, 0x36, 0x37, 0x38, 0x39}"
proof -
  from assms have "d \<in> {0,1,2,3,4,5,6,7,8,9}" by auto
  then show ?thesis by (auto simp: digitChar_def)
qed

lemma digitChar_isDigit: "d < 10 \<Longrightarrow> isDigit (digitChar d)"
  using digitChar_cases [of d] by (auto simp: isDigit_def)

lemma digitChar_val: "d < 10 \<Longrightarrow> uint (digitChar d) - 0x30 = int d"
proof -
  assume "d < 10"
  then have "d \<in> {0,1,2,3,4,5,6,7,8,9}" by auto
  then show ?thesis by (auto simp: digitChar_def)
qed

lemma digitChars_isDigit: "list_all (\<lambda>x. x < 10) ds \<Longrightarrow> list_all isDigit (digitChars ds)"
  by (induction ds) (simp_all add: digitChars_def digitChar_isDigit)

lemma foldl_digits:
  "list_all (\<lambda>x. x < 10) ds \<Longrightarrow>
     foldl (\<lambda>a c. 10 * a + (uint c - 0x30)) a (digitChars ds) =
     foldl (\<lambda>a d. 10 * a + int d) a ds"
  by (induction ds arbitrary: a) (simp_all add: digitChars_def digitChar_val)

lemma digitsVal_digitChars: "list_all (\<lambda>x. x < 10) ds \<Longrightarrow> digitsVal (digitChars ds) = fromDigits ds"
  by (simp add: digitsVal_def fromDigits_def foldl_digits)

lemma digitChars_append: "digitChars (xs @ ys) = digitChars xs @ digitChars ys"
  by (simp add: digitChars_def)

lemma length_digitChars [simp]: "length (digitChars ds) = length ds"
  by (simp add: digitChars_def)

lemma digitChars_Nil [simp]: "digitChars ds = [] \<longleftrightarrow> ds = []"
  by (simp add: digitChars_def)

lemma strUnsigned_decimal:
  assumes "ip \<noteq> []" "list_all (\<lambda>x. x < 10) ip" "list_all (\<lambda>x. x < 10) fp"
  shows "strUnsignedDecimalPrefix (digitChars ip @ (if fp = [] then [] else 0x2E # digitChars fp)) =
     Some (roundBinary64 (fromDigits (ip @ fp)) (10 ^ length fp), [])"
proof -
  obtain d ds where ip: "ip = d # ds" using assms(1) by (cases ip) auto
  have d: "d < 10" using assms(2) ip by simp
  have noInf: "\<And>r. \<not> startsWith (digitChars ip @ r) (js ''Infinity'')"
    using digitChar_cases [OF d] by (auto simp: startsWith_def js_def ip digitChars_def)
  have twf: "takeWhile isDigit (digitChars fp) = digitChars fp"
    using takeWhile_run [of isDigit "digitChars fp" "[]"] by (simp add: digitChars_isDigit assms)
  have val: "digitsVal (digitChars ip @ digitChars fp) = fromDigits (ip @ fp)"
    using digitsVal_digitChars [of "ip @ fp"] assms(2,3) by (simp add: digitChars_append)
  show ?thesis
  proof (cases "fp = []")
    case True
    have tw: "takeWhile isDigit (digitChars ip) = digitChars ip"
      using takeWhile_run [of isDigit "digitChars ip" "[]"] by (simp add: digitChars_isDigit assms)
    have "strUnsignedDecimalPrefix (digitChars ip) = Some (roundBinary64 (fromDigits ip) 1, [])"
      using noInf [of "[]"] assms(1) digitsVal_digitChars [OF assms(2)]
      by (simp add: strUnsignedDecimalPrefix_def tw exponentPart_def numberOfDecimal_def)
    then show ?thesis
      using True by simp
  next
    case False
    have tw: "takeWhile isDigit (digitChars ip @ 0x2E # digitChars fp) = digitChars ip"
      by (rule takeWhile_run) (simp_all add: digitChars_isDigit assms isDigit_def)
    have "strUnsignedDecimalPrefix (digitChars ip @ 0x2E # digitChars fp) =
       Some (roundBinary64 (fromDigits (ip @ fp)) (10 ^ length fp), [])"
      using noInf [of "0x2E # digitChars fp"] assms(1) val False
      by (simp add: strUnsignedDecimalPrefix_def tw twf exponentPart_def numberOfDecimal_def)
    then show ?thesis
      using False by simp
  qed
qed

lemma digitChars_chars:
  "list_all (\<lambda>x. x < 10) ds \<Longrightarrow>
     set (digitChars ds) \<subseteq> {0x30, 0x31, 0x32, 0x33, 0x34, 0x35, 0x36, 0x37, 0x38, 0x39}"
proof (induction ds)
  case Nil
  then show ?case by (simp add: digitChars_def)
next
  case (Cons a ds)
  then show ?case
    using digitChar_cases [of a] by (simp add: digitChars_def)
qed

lemma decimalText_chars:
  assumes "validDecimal d"
  shows "set (decimalText d) \<subseteq>
     {0x2D, 0x2E, 0x30, 0x31, 0x32, 0x33, 0x34, 0x35, 0x36, 0x37, 0x38, 0x39}"
  using assms digitChars_chars [of "intDigits d"] digitChars_chars [of "fracDigits d"]
  by (auto simp: validDecimal_def decimalText_def)

lemma decimalText_plain:
  assumes "validDecimal d" "c \<in> set (decimalText d)"
  shows "\<not> isWhiteSpace c \<and> c \<noteq> 0x2C \<and> c \<noteq> 0x3C \<and> c \<noteq> 0x22
     \<and> c \<notin> {0x78, 0x58, 0x6F, 0x4F, 0x62, 0x42}"
  using decimalText_chars [OF assms(1)] assms(2) by (auto simp: isWhiteSpace_def)

lemma decimalText_ne: "validDecimal d \<Longrightarrow> decimalText d \<noteq> []"
  by (simp add: validDecimal_def decimalText_def)

lemma roundBinary64_NaN: "roundBinary64 a b \<noteq> NaN"
  by (simp add: roundBinary64_def Let_def)

lemma negate_NaN: "negate v = NaN \<longleftrightarrow> v = NaN"
  by (cases v) simp_all

lemma decimalNumber_NaN: "decimalNumber d \<noteq> NaN"
  by (simp add: decimalNumber_def Let_def negate_NaN roundBinary64_NaN)

lemma strDecimalPrefix_decimalText:
  assumes "validDecimal d"
  shows "strDecimalPrefix (decimalText d) = Some (decimalNumber d, [])"
proof -
  obtain x xs where ip: "intDigits d = x # xs"
    using assms by (cases "intDigits d") (auto simp: validDecimal_def)
  have x: "x < 10" using assms ip by (simp add: validDecimal_def)
  have nosign: "digitChar x \<noteq> 0x2B" "digitChar x \<noteq> 0x2D"
    using digitChar_cases [OF x] by auto
  have u: "strUnsignedDecimalPrefix
      (digitChars (intDigits d) @ (if fracDigits d = [] then [] else 0x2E # digitChars (fracDigits d))) =
     Some (roundBinary64 (fromDigits (intDigits d @ fracDigits d)) (10 ^ length (fracDigits d)), [])"
    using assms by (intro strUnsigned_decimal) (simp_all add: validDecimal_def)
  show ?thesis
  proof (cases "negative d")
    case True
    then have "optSign (decimalText d) =
        (True, digitChars (intDigits d) @ (if fracDigits d = [] then [] else 0x2E # digitChars (fracDigits d)))"
      by (simp add: decimalText_def)
    then show ?thesis
      using True u by (simp add: strDecimalPrefix_def decimalNumber_def)
  next
    case False
    then have "optSign (decimalText d) =
        (False, digitChars (intDigits d) @ (if fracDigits d = [] then [] else 0x2E # digitChars (fracDigits d)))"
      using nosign by (simp add: decimalText_def ip digitChars_def)
    then show ?thesis
      using False u by (simp add: strDecimalPrefix_def decimalNumber_def)
  qed
qed

lemma parseFloat_decimalText:
  assumes "validDecimal d"
  shows "parseFloat (decimalText d) = decimalNumber d"
proof -
  have ne: "decimalText d \<noteq> []" by (rule decimalText_ne [OF assms])
  then have "\<not> isWhiteSpace (hd (decimalText d))"
    using decimalText_plain [OF assms, of "hd (decimalText d)"] by simp
  then have "dropWhile isWhiteSpace (decimalText d) = decimalText d"
    using ne by (cases "decimalText d") simp_all
  then show ?thesis
    by (simp add: parseFloat_def strDecimalPrefix_decimalText [OF assms])
qed

lemma nonDecimal_None:
  assumes "\<And>c. c \<in> set s \<Longrightarrow> c \<notin> {0x78, 0x58, 0x6F, 0x4F, 0x62, 0x42}"
  shows "nonDecimalIntegerLiteral s = None"
proof (cases s)
  case Nil
  then show ?thesis by (simp add: nonDecimalIntegerLiteral_def)
next
  case (Cons z r)
  show ?thesis
  proof (cases r)
    case Nil
    with Cons show ?thesis by (simp add: nonDecimalIntegerLiteral_def)
  next
    case (Cons x ds)
    with \<open>s = z # r\<close> assms [of x] show ?thesis
      by (simp add: nonDecimalIntegerLiteral_def)
  qed
qed

lemma Number_decimalText:
  assumes "validDecimal d"
  shows "Number (decimalText d) = decimalNumber d"
proof -
  note p = decimalText_plain [OF assms]
  have ne: "decimalText d \<noteq> []" by (rule decimalText_ne [OF assms])
  have "trim ([] @ decimalText d @ []) = decimalText d"
    by (rule trim_inner) (simp_all add: ne p)
  then have t: "trim (decimalText d) = decimalText d" by simp
  have n: "nonDecimalIntegerLiteral (decimalText d) = None"
    by (rule nonDecimal_None) (use p in blast)
  show ?thesis
    using ne by (simp add: Number_def t n strDecimalPrefix_decimalText [OF assms])
qed

text \<open>
  Numerals that are not binary64 values: the nearest value is returned, the even one of two
  that are as near, the infinity beyond the range, and the zero keeps its sign.
\<close>

lemma decimalNumber_rounds:
  "decimalNumber \<lparr>negative = False, intDigits = [0], fracDigits = [1]\<rparr> =
     Finite (3602879701896397 / 36028797018963968)"
  "decimalNumber \<lparr>negative = False,
     intDigits = [9, 0, 0, 7, 1, 9, 9, 2, 5, 4, 7, 4, 0, 9, 9, 3], fracDigits = []\<rparr> =
     Finite 9007199254740992"
  "decimalNumber \<lparr>negative = True, intDigits = [0], fracDigits = [0]\<rparr> = NegZero"
  by code_simp+

lemma decimalNumber_overflows:
  "decimalNumber \<lparr>negative = False, intDigits = 1 # replicate 309 0, fracDigits = []\<rparr> =
     PosInfinity"
  by (simp add: decimalNumber_def fromDigits_def num_simps numeral_eq_Suc)

lemma splitChar_first:
  "sep \<notin> set a \<Longrightarrow> splitChar sep (a @ sep # r) = a # splitChar sep r"
  by (induction a) auto

lemma splitChar_last: "sep \<notin> set a \<Longrightarrow> splitChar sep a = [a]"
  by (induction a) auto

lemma splitChar_tuple:
  assumes "validTuple k"
  shows "\<exists>rest. splitChar 0x2C (tupleText k) =
     decimalText (lonNum k) # decimalText (latNum k) # rest"
proof -
  have a: "0x2C \<notin> set (decimalText (lonNum k))" "0x2C \<notin> set (decimalText (latNum k))"
    using assms decimalText_plain by (auto simp: validTuple_def)
  show ?thesis
  proof (cases "altText k")
    case None
    then show ?thesis
      by (simp add: tupleText_def splitChar_first [OF a(1)] splitChar_last [OF a(2)])
  next
    case (Some alt)
    then show ?thesis
      by (simp add: tupleText_def splitChar_first [OF a(1)] splitChar_first [OF a(2)])
  qed
qed

lemma pairCoord_tuple:
  assumes "validTuple k"
  shows "pairCoord (tupleText k) =
     Some \<lparr>lat = decimalNumber (latNum k), lon = decimalNumber (lonNum k)\<rparr>"
proof -
  obtain rest where "splitChar 0x2C (tupleText k) =
      decimalText (lonNum k) # decimalText (latNum k) # rest"
    using splitChar_tuple [OF assms] by blast
  then show ?thesis
    using assms by (simp add: pairCoord_def validTuple_def Number_decimalText decimalNumber_NaN)
qed

lemma isToken_tuple:
  assumes "validTuple k"
  shows "isToken (tupleText k)"
proof -
  have "\<And>c. c \<in> set (tupleText k) \<Longrightarrow> \<not> isWhiteSpace c \<and> c \<noteq> 0x3C"
    using assms decimalText_plain [of "lonNum k"] decimalText_plain [of "latNum k"]
    by (auto simp: validTuple_def tupleText_def isWhiteSpace_def list_ex_iff split: option.splits)
  then show ?thesis
    by (auto simp: isToken_def list_ex_iff tupleText_def)
qed

section \<open>Properties of the track parsers\<close>

text \<open>The equations that evaluate the parsers on a given text.\<close>


lemmas eval_simps =
  js_def startsWith_def isWhiteSpace_def matchAt.simps coordinatesRe_def trkptRe_def
  kmlCoords_def gpxCoords_def matchGroup_def trim_def splitRe_def List.map_filter_simps
  pairCoord_def Number_def nonDecimalIntegerLiteral_def strDecimalPrefix_def
  strUnsignedDecimalPrefix_def isDigit_def exponentPart_def digitsVal_def
  parseFloat_def radixVal_def digitOf_def num_simps

lemma gpxCoords_gpxText:
  assumes "list_all (\<lambda>(gap, m). \<not> includesStr gap (js ''<trkpt'') \<and> wellFormed m) items"
    and "\<not> includesStr tail (js ''<trkpt'')"
  shows "gpxCoords (gpxText items tail) =
     map (\<lambda>(gap, m). \<lparr>lat = parseFloat (latText m), lon = parseFloat (lonText m)\<rparr>) items"
  unfolding gpxCoords_def gpx_matchAll [OF assms]
  by (simp add: matchGroup_def split_def)

text \<open>
  C1, as amended. A GPX text made of N markers, N at least 1, each written \<^verbatim>\<open><trkpt\<close>, white
  space, \<^verbatim>\<open>lat="..."\<close>, white space, \<^verbatim>\<open>lon="..."\<close> with decimal numerals as values, and of
  text before, between and after them in which \<^verbatim>\<open><trkpt\<close> does not occur: \<open>parseGpx\<close>
  returns N coordinates, in the order of the markers, each with the Number values of its
  marker's numerals, that is their values rounded to binary64.
\<close>

theorem parseGpx_markers_in_order:
  assumes "items \<noteq> []"
    and "list_all (\<lambda>(gap, m, la, lo).
           \<not> includesStr gap (js ''<trkpt'') \<and> wellFormed m
           \<and> validDecimal la \<and> latText m = decimalText la
           \<and> validDecimal lo \<and> lonText m = decimalText lo) items"
    and "\<not> includesStr tail (js ''<trkpt'')"
  shows "parseGpx (gpxText (map (\<lambda>(gap, m, la, lo). (gap, m)) items) tail) =
     Inr (map (\<lambda>(gap, m, la, lo).
            \<lparr>lat = decimalNumber la, lon = decimalNumber lo\<rparr>) items)"
proof -
  let ?items = "map (\<lambda>(gap, m, la, lo). (gap, m)) items"
  have wf: "list_all (\<lambda>(gap, m). \<not> includesStr gap (js ''<trkpt'') \<and> wellFormed m) ?items"
    using assms(2) by (induction items) auto
  have "gpxCoords (gpxText ?items tail) =
      map (\<lambda>(gap, m). \<lparr>lat = parseFloat (latText m), lon = parseFloat (lonText m)\<rparr>) ?items"
    by (rule gpxCoords_gpxText [OF wf assms(3)])
  also have "\<dots> = map (\<lambda>(gap, m, la, lo).
            \<lparr>lat = decimalNumber la, lon = decimalNumber lo\<rparr>) items"
    using assms(2) by (induction items) (auto simp: parseFloat_decimalText)
  finally show ?thesis
    using assms(1) by (simp add: parseGpx_def)
qed

theorem parseGpx_markers_in_order_witness:
  \<open>parseGpx (js ''<trkpt lat="45.0" lon="7.5"/><trkpt lat="45.1" lon="7.6"/>'') =
     Inr [\<lparr>lat = Finite 45, lon = Finite (15 / 2)\<rparr>,
          \<lparr>lat = Finite (6347260724825293 / 140737488355328),
           lon = Finite (4278419646001971 / 562949953421312)\<rparr>]
   \<and> parseGpx (js ''<gpx><trkpt lat="9007199254740993" lon="-0.5"/></gpx>'') =
     Inr [\<lparr>lat = Finite 9007199254740992, lon = Finite (- (1 / 2))\<rparr>]\<close>
  using parseGpx_markers_in_order [of
    \<open>[([], \<lparr>ws1 = js '' '', latText = js ''45.0'', ws2 = js '' '', lonText = js ''7.5''\<rparr>,
        \<lparr>negative = False, intDigits = [4, 5], fracDigits = [0]\<rparr>,
        \<lparr>negative = False, intDigits = [7], fracDigits = [5]\<rparr>),
       (js ''/>'', \<lparr>ws1 = js '' '', latText = js ''45.1'', ws2 = js '' '', lonText = js ''7.6''\<rparr>,
        \<lparr>negative = False, intDigits = [4, 5], fracDigits = [1]\<rparr>,
        \<lparr>negative = False, intDigits = [7], fracDigits = [6]\<rparr>)]\<close>
    \<open>js ''/>''\<close>]
    parseGpx_markers_in_order [of
    \<open>[(js ''<gpx>'',
        \<lparr>ws1 = js '' '', latText = js ''9007199254740993'', ws2 = js '' '',
          lonText = js ''-0.5''\<rparr>,
        \<lparr>negative = False, intDigits = [9, 0, 0, 7, 1, 9, 9, 2, 5, 4, 7, 4, 0, 9, 9, 3],
          fracDigits = []\<rparr>,
        \<lparr>negative = True, intDigits = [0], fracDigits = [5]\<rparr>)]\<close>
    \<open>js ''/></gpx>''\<close>]
  by (simp add: js_def startsWith_def wellFormed_def isWhiteSpace_def validDecimal_def
      decimalText_def digitChars_def digitChar_def decimalNumber_def num_simps fromDigits_def
      trkptText_def)

text \<open>
  C1 as stated fails on a marker whose attributes are in the other order: it is a
  track-point marker with numeric \<^verbatim>\<open>lat\<close> and \<^verbatim>\<open>lon\<close>, the pattern does not match it, and
  \<open>parseGpx\<close> throws instead of returning a coordinate.
\<close>

theorem parseGpx_lon_before_lat:
  \<open>parseGpx (js ''<trkpt lon="7.5" lat="45.0"/>'') = Inl (js ''No track points found in GPX file.'')\<close>
  by (simp add: parseGpx_def gpxCoords_def trkptRe_def matchAt.simps js_def startsWith_def
      isWhiteSpace_def)



text \<open>
  C4. Neither parser returns an empty sequence: a text from which no coordinate is
  extracted makes \<open>parseGpx\<close> throw the error that names GPX and \<open>parseKml\<close> the error
  that names KML.
\<close>

theorem parsers_never_return_empty:
  "parseGpx g \<noteq> Inr [] \<and> parseKml k \<noteq> Inr []
   \<and> (gpxCoords g' = [] \<longrightarrow> parseGpx g' = Inl (js ''No track points found in GPX file.''))
   \<and> (kmlCoords k' = [] \<longrightarrow> parseKml k' = Inl (js ''No coordinates found in KML file.''))"
  by (simp add: parseGpx_def parseKml_def Let_def)

theorem parsers_never_return_empty_witness:
  \<open>gpxCoords (js ''<gpx><wpt lat="1" lon="2"/></gpx>'') = []
   \<and> parseGpx (js ''<gpx><wpt lat="1" lon="2"/></gpx>'') = Inl (js ''No track points found in GPX file.'')
   \<and> kmlCoords (js ''<coordinates>north,east</coordinates>'') = []
   \<and> parseKml (js ''<coordinates>north,east</coordinates>'') = Inl (js ''No coordinates found in KML file.'')\<close>
proof -
  have 1: \<open>gpxCoords (js ''<gpx><wpt lat="1" lon="2"/></gpx>'') = []\<close>
    by (simp add: gpxCoords_def trkptRe_def matchAt.simps js_def startsWith_def)
  have 2: \<open>kmlCoords (js ''<coordinates>north,east</coordinates>'') = []\<close>
    by (simp add: kmlCoords_def coordinatesRe_def matchAt.simps js_def startsWith_def matchGroup_def
        trim_def isWhiteSpace_def splitRe_def List.map_filter_simps pairCoord_def Number_def
        nonDecimalIntegerLiteral_def strDecimalPrefix_def strUnsignedDecimalPrefix_def isDigit_def)
  show ?thesis
    using 1 2 parsers_never_return_empty [of _ _ \<open>js ''<gpx><wpt lat="1" lon="2"/></gpx>''\<close>
        \<open>js ''<coordinates>north,east</coordinates>''\<close>]
    by simp
qed

text \<open>
  C2, as amended. A KML text whose first \<^verbatim>\<open><coordinates>\<close> opens a block of N tokens, N at
  least 1, separated by white space, each \<^verbatim>\<open>lon,lat\<close> or \<^verbatim>\<open>lon,lat,alt\<close> with decimal
  numerals for \<^verbatim>\<open>lon\<close> and \<^verbatim>\<open>lat\<close>: \<open>parseKml\<close> returns N coordinates in the order of the
  tokens, the latitude of each being the Number value of the second component of its token
  (its value rounded to binary64) and the longitude that of the first; what follows the
  second component is dropped.
\<close>

theorem parseKml_tuples_in_order:
  assumes "items \<noteq> []"
    and "list_all (\<lambda>(w, k). list_all isWhiteSpace w \<and> validTuple k) items"
    and "list_all (\<lambda>(w, k). w \<noteq> []) (tl items)"
    and "list_all isWhiteSpace trail"
    and "\<not> includesStr pre (js ''<coordinates>'')"
  shows "parseKml (pre @ kmlBlock (bodyText (map (\<lambda>(w, k). (w, tupleText k)) items) trail) @ post) =
     Inr (map (\<lambda>(w, k). \<lparr>lat = decimalNumber (latNum k),
                          lon = decimalNumber (lonNum k)\<rparr>) items)"
proof -
  let ?items = "map (\<lambda>(w, k). (w, tupleText k)) items"
  have 1: "list_all (\<lambda>(w, t). list_all isWhiteSpace w \<and> isToken t) ?items"
    using assms(2) by (induction items) (auto simp: isToken_tuple)
  have 2: "list_all (\<lambda>(w, t). w \<noteq> []) (tl ?items)"
    using assms(3) by (cases items) (auto simp: list_all_iff)
  have ws: "wellSpaced ?items trail"
    using 1 2 assms(4) by (simp add: wellSpaced_def)
  have ne: "bodyText ?items trail \<noteq> []"
    using assms(1,2) by (cases items) (auto simp: tupleText_def)
  have nb: "noBlockIn pre (kmlBlock (bodyText ?items trail) @ post)"
    by (rule noBlockIn_includes [OF _ assms(5)]) (simp add: kmlBlock_def js_def)
  have "List.map_filter pairCoord (map snd ?items) =
      map (\<lambda>(w, k). \<lparr>lat = decimalNumber (latNum k),
                       lon = decimalNumber (lonNum k)\<rparr>) items"
    using assms(2) by (induction items) (auto simp: List.map_filter_simps pairCoord_tuple)
  then show ?thesis
    using assms(1) by (simp add: parseKml_def kmlCoords_tokens [OF nb ws ne])
qed

theorem parseKml_tuples_in_order_witness:
  "parseKml (js ''<coordinates>7.5,45.0,0 7.6,45.1,0</coordinates>'') =
     Inr [\<lparr>lat = Finite 45, lon = Finite (15 / 2)\<rparr>,
          \<lparr>lat = Finite (6347260724825293 / 140737488355328),
           lon = Finite (4278419646001971 / 562949953421312)\<rparr>]
   \<and> parseKml (js ''<coordinates>0.5,9007199254740993</coordinates>'') =
     Inr [\<lparr>lat = Finite 9007199254740992, lon = Finite (1 / 2)\<rparr>]"
  using parseKml_tuples_in_order [of
    "[([], \<lparr>lonNum = \<lparr>negative = False, intDigits = [7], fracDigits = [5]\<rparr>,
            latNum = \<lparr>negative = False, intDigits = [4, 5], fracDigits = [0]\<rparr>,
            altText = Some (js ''0'')\<rparr>),
      (js '' '', \<lparr>lonNum = \<lparr>negative = False, intDigits = [7], fracDigits = [6]\<rparr>,
            latNum = \<lparr>negative = False, intDigits = [4, 5], fracDigits = [1]\<rparr>,
            altText = Some (js ''0'')\<rparr>)]"
    "[]" "[]" "[]"]
    parseKml_tuples_in_order [of
    "[([], \<lparr>lonNum = \<lparr>negative = False, intDigits = [0], fracDigits = [5]\<rparr>,
            latNum = \<lparr>negative = False,
              intDigits = [9, 0, 0, 7, 1, 9, 9, 2, 5, 4, 7, 4, 0, 9, 9, 3], fracDigits = []\<rparr>,
            altText = None\<rparr>)]"
    "[]" "[]" "[]"]
  by (simp add: js_def isWhiteSpace_def validTuple_def validDecimal_def tupleText_def
      decimalText_def digitChars_def digitChar_def decimalNumber_def num_simps fromDigits_def
      kmlBlock_def)

text \<open>
  C2 as stated fails for N = 0: on a block without tokens \<open>parseKml\<close> throws instead of
  returning no coordinates.
\<close>

theorem parseKml_empty_block:
  "parseKml (js ''<coordinates></coordinates>'') = Inl (js ''No coordinates found in KML file.'')"
  by (simp add: parseKml_def eval_simps)

text \<open>
  C8, as amended. \<open>parseKml\<close> reads the first coordinates block whose content is not empty
  and has no \<^verbatim>\<open><\<close>: its result is the result for that block alone, whatever precedes the
  block and whatever follows it, further blocks included.
\<close>

theorem parseKml_reads_first_block_only:
  assumes "noBlockIn pre (kmlBlock body @ post)" "body \<noteq> []" "0x3C \<notin> set body"
  shows "parseKml (pre @ kmlBlock body @ post) = parseKml (kmlBlock body)"
proof -
  have "kmlCoords ([] @ kmlBlock body @ []) = List.map_filter pairCoord (splitRe [Plus Space] (trim body))"
    by (rule kmlCoords_block [OF _ assms(2,3)]) simp
  then show ?thesis
    by (simp add: parseKml_def kmlCoords_block [OF assms])
qed

theorem parseKml_reads_first_block_only_witness:
  "parseKml (js ''<kml><coordinates></coordinates><coordinates>7.5,45.0</coordinates><coordinates>1,2</coordinates></kml>'')
     = Inr [\<lparr>lat = Finite 45, lon = Finite (15 / 2)\<rparr>]"
proof -
  have 1: "noBlockIn (js ''<kml><coordinates></coordinates>'')
      (kmlBlock (js ''7.5,45.0'') @ js ''<coordinates>1,2</coordinates></kml>'')"
    by (simp add: kmlBlock_def coordinatesBlockAt_def js_def startsWith_def)
  have 2: "parseKml (kmlBlock (js ''7.5,45.0'')) = Inr [\<lparr>lat = Finite 45, lon = Finite (15 / 2)\<rparr>]"
    by (simp add: parseKml_def kmlBlock_def eval_simps)
  show ?thesis
    using parseKml_reads_first_block_only [OF 1] 2
    by (simp add: kmlBlock_def js_def)
qed

text \<open>
  C8 as stated fails when the first block in the text is empty: the pattern does not match
  it, and the coordinate returned is one that occurs in the second block only.
\<close>

theorem parseKml_skips_empty_block:
  "parseKml (js ''<coordinates></coordinates><coordinates>7.5,45.0</coordinates>'') =
     Inr [\<lparr>lat = Finite 45, lon = Finite (15 / 2)\<rparr>]"
  by (simp add: parseKml_def eval_simps)

text \<open>
  C9. Of the tokens of the block, those with at least two comma-separated components of which
  the first two convert to a number contribute one coordinate each, in order; every other
  token contributes nothing, and the parse fails only when no token is left. An empty
  component converts to 0, so that \<^verbatim>\<open>7.5,\<close> is kept.
\<close>

theorem parseKml_drops_non_numeric_tokens:
  assumes "wellSpaced items trail" and "bodyText items trail \<noteq> []"
    and "noBlockIn pre (kmlBlock (bodyText items trail) @ post)"
  shows "parseKml (pre @ kmlBlock (bodyText items trail) @ post) =
     (let kept = filter numericPair (map snd items)
      in if kept = [] then Inl (js ''No coordinates found in KML file.'')
         else Inr (map (\<lambda>t. \<lparr>lat = Number (splitChar 0x2C t ! 1),
                               lon = Number (splitChar 0x2C t ! 0)\<rparr>) kept))"
  by (simp add: parseKml_def kmlCoords_tokens [OF assms(3,1,2)] map_filter_pairCoord Let_def)

theorem parseKml_drops_non_numeric_tokens_witness:
  "parseKml (js ''<coordinates>7.5, abc,1 8 1,2,3 </coordinates>'') =
     Inr [\<lparr>lat = Finite 0, lon = Finite (15 / 2)\<rparr>, \<lparr>lat = Finite 2, lon = Finite 1\<rparr>]"
proof -
  have n: "numericPair (js ''7.5,'')" "\<not> numericPair (js ''abc,1'')" "\<not> numericPair (js ''8'')"
    "numericPair (js ''1,2,3'')"
    by (simp_all add: numericPair_def eval_simps)
  have v: "Number (js ''7.5'') = Finite (15 / 2)" "Number [] = Finite 0"
    "Number (js ''1'') = Finite 1" "Number (js ''2'') = Finite 2"
    by (simp_all add: eval_simps)
  have s: "splitChar 0x2C (js ''7.5,'') = [js ''7.5'', []]"
    "splitChar 0x2C (js ''1,2,3'') = [js ''1'', js ''2'', js ''3'']"
    by (simp_all add: js_def)
  have w: "wellSpaced [([], js ''7.5,''), (js '' '', js ''abc,1''), (js '' '', js ''8''),
      (js '' '', js ''1,2,3'')] (js '' '')"
    by (simp add: wellSpaced_def isToken_def js_def isWhiteSpace_def)
  show ?thesis
    using parseKml_drops_non_numeric_tokens [OF w, of "[]" "[]"] n v s
    by (simp add: kmlBlock_def) (simp add: js_def)
qed

section \<open>Properties of the video job client\<close>

lemma catchBlock_completed:
  "catchBlock (Error (js ''Video generation completed, but no download link was found.'')) =
     js ''Failed to generate video. The AI model may be busy or an error occurred.''"
  by (simp add: catchBlock_def js_def startsWith_def)

lemma pollLoop_never_done:
  assumes nd: "\<And>operation w. \<exists>operation' w'.
                 getVideosOperation svc operation w = (Inr operation', w') \<and> notDone operation'"
  shows "notDone operation \<Longrightarrow>
     pollLoop k svc operation w tr =
       (None, tr @ concat (replicate k [Sleep 10000, GetVideosOperation]))"
proof (induction k arbitrary: operation w tr)
  case 0
  then show ?case by simp
next
  case (Suc k)
  from nd obtain operation' w' where
    step: "getVideosOperation svc operation w = (Inr operation', w')" and nd': "notDone operation'"
    by blast
  show ?case
    using Suc.prems step Suc.IH [OF nd'] by simp
qed

text \<open>
  C5. When the submission throws, \<open>generateRouteVideo\<close> throws the credential message if the
  caught value is an \<^verbatim>\<open>Error\<close> whose message contains \<^verbatim>\<open>API key not valid\<close>, and the
  generic message for every other thrown value; nothing is polled.
\<close>

theorem submission_failure_message:
  assumes "generateVideos svc base64MapImage w = (Inl err, w')"
  shows "generateRouteVideo n svc base64MapImage w =
     (Some (Inl (if (\<exists>message. err = Error message
                       \<and> includesStr message (js ''API key not valid''))
                 then js ''The provided API Key is invalid. Please check your configuration.''
                 else js ''Failed to generate video. The AI model may be busy or an error occurred.'')),
      [GenerateVideos])"
  using assms by (cases err) (simp_all add: generateRouteVideo_def catchBlock_def)

theorem submission_failure_message_witness:
  "generateRouteVideo 5
     \<lparr>generateVideos =
        (\<lambda>base64MapImage w. (Inl (Error (js ''400: API key not valid. Pass a valid key.'')), w)),
      getVideosOperation = (\<lambda>operation w. (Inl NotAnError, w))\<rparr>
     (js ''iVBORw0KGgo='') () =
     (Some (Inl (js ''The provided API Key is invalid. Please check your configuration.'')),
      [GenerateVideos])
   \<and> generateRouteVideo 5
     \<lparr>generateVideos = (\<lambda>base64MapImage w. (Inl (Error (js ''503 overloaded'')), w)),
      getVideosOperation = (\<lambda>operation w. (Inl NotAnError, w))\<rparr>
     (js ''iVBORw0KGgo='') () =
     (Some (Inl (js ''Failed to generate video. The AI model may be busy or an error occurred.'')),
      [GenerateVideos])"
proof -
  have a: "includesStr (js ''400: API key not valid. Pass a valid key.'') (js ''API key not valid'')"
    by (simp add: js_def startsWith_def)
  have b: "\<not> includesStr (js ''503 overloaded'') (js ''API key not valid'')"
    by (simp add: js_def startsWith_def)
  show ?thesis
    using a b
      submission_failure_message [of
        "\<lparr>generateVideos =
            (\<lambda>base64MapImage w. (Inl (Error (js ''400: API key not valid. Pass a valid key.'')), w)),
          getVideosOperation = (\<lambda>operation w. (Inl NotAnError, w))\<rparr>"
        "js ''iVBORw0KGgo=''" "()" "Error (js ''400: API key not valid. Pass a valid key.'')" "()" 5]
      submission_failure_message [of
        "\<lparr>generateVideos = (\<lambda>base64MapImage w. (Inl (Error (js ''503 overloaded'')), w)),
          getVideosOperation = (\<lambda>operation w. (Inl NotAnError, w))\<rparr>"
        "js ''iVBORw0KGgo=''" "()" "Error (js ''503 overloaded'')" "()" 5]
    by simp
qed

text \<open>
  C6. When the operation returned by the submission and the one returned by the first
  re-query are not done and the one returned by the second re-query is, the loop sleeps
  twice and re-queries twice, and the result is extracted from the third operation.
\<close>

theorem two_pending_then_done:
  assumes "generateVideos svc base64MapImage w0 = (Inr op0, w1)" and "notDone op0"
    and "getVideosOperation svc op0 w1 = (Inr op1, w2)" and "notDone op1"
    and "getVideosOperation svc op1 w2 = (Inr op2, w3)" and "\<not> notDone op2"
    and "2 \<le> n"
  shows "generateRouteVideo n svc base64MapImage w0 =
     (Some (case downloadLink op2 of
              None \<Rightarrow>
                Inl (js ''Failed to generate video. The AI model may be busy or an error occurred.'')
            | Some link \<Rightarrow>
                if link = []
                then Inl (js ''Failed to generate video. The AI model may be busy or an error occurred.'')
                else Inr link),
      [GenerateVideos, Sleep 10000, GetVideosOperation, Sleep 10000, GetVideosOperation])"
proof -
  obtain m where n: "n = Suc (Suc m)"
    using assms(7) by (metis Suc_le_D numeral_2_eq_2 Suc_le_mono)
  have "pollLoop n svc op0 w1 [GenerateVideos] =
          (Some (Inr op2),
           [GenerateVideos, Sleep 10000, GetVideosOperation, Sleep 10000, GetVideosOperation])"
    using assms(2-6) unfolding n by (cases m) simp_all
  then show ?thesis
    using assms(1) by (simp add: generateRouteVideo_def catchBlock_completed split: option.split)
qed

theorem two_pending_then_done_witness:
  "generateRouteVideo 7
     \<lparr>generateVideos = (\<lambda>base64MapImage w. (Inr \<lparr>isDone = None, response = None\<rparr>, w)),
      getVideosOperation =
        (\<lambda>operation w.
           (Inr \<lparr>isDone = Some (1 \<le> w),
                 response = Some \<lparr>generatedVideos =
                   Some [\<lparr>video = Some \<lparr>uri = Some (js ''https://v/1?alt=media'')\<rparr>\<rparr>]\<rparr>\<rparr>,
            Suc w))\<rparr>
     (js ''iVBORw0KGgo='') (0::nat) =
     (Some (Inr (js ''https://v/1?alt=media'')),
      [GenerateVideos, Sleep 10000, GetVideosOperation, Sleep 10000, GetVideosOperation])"
  using two_pending_then_done [of
     "\<lparr>generateVideos = (\<lambda>base64MapImage w. (Inr \<lparr>isDone = None, response = None\<rparr>, w)),
      getVideosOperation =
        (\<lambda>operation w.
           (Inr \<lparr>isDone = Some (1 \<le> w),
                 response = Some \<lparr>generatedVideos =
                   Some [\<lparr>video = Some \<lparr>uri = Some (js ''https://v/1?alt=media'')\<rparr>\<rparr>]\<rparr>\<rparr>,
            Suc w))\<rparr>"
     "js ''iVBORw0KGgo=''" "0::nat" "\<lparr>isDone = None, response = None\<rparr>" 0
     "\<lparr>isDone = Some False,
       response = Some \<lparr>generatedVideos =
         Some [\<lparr>video = Some \<lparr>uri = Some (js ''https://v/1?alt=media'')\<rparr>\<rparr>]\<rparr>\<rparr>" 1
     "\<lparr>isDone = Some True,
       response = Some \<lparr>generatedVideos =
         Some [\<lparr>video = Some \<lparr>uri = Some (js ''https://v/1?alt=media'')\<rparr>\<rparr>]\<rparr>\<rparr>" 2 7]
  by (simp add: notDone_def downloadLink_def js_def)

text \<open>
  C7. The loop has no retry limit and no timeout: when the submission returns an operation
  that is not done and every re-query returns one that is not done, then for every \<open>k\<close> the
  run is still polling after \<open>k\<close> iterations, having slept and re-queried \<open>k\<close> times,
  without a result and without an error.
\<close>

theorem polling_is_unbounded:
  assumes "generateVideos svc base64MapImage w = (Inr operation, w1)"
    and "notDone operation"
    and "\<And>operation w. \<exists>operation' w'.
           getVideosOperation svc operation w = (Inr operation', w') \<and> notDone operation'"
  shows "generateRouteVideo k svc base64MapImage w =
           (None, GenerateVideos # concat (replicate k [Sleep 10000, GetVideosOperation]))"
  using assms(1) pollLoop_never_done [OF assms(3) assms(2)]
  by (simp add: generateRouteVideo_def)

theorem polling_is_unbounded_witness:
  "generateRouteVideo 3
     \<lparr>generateVideos = (\<lambda>base64MapImage w. (Inr \<lparr>isDone = None, response = None\<rparr>, w)),
      getVideosOperation =
        (\<lambda>operation w. (Inr \<lparr>isDone = Some False, response = None\<rparr>, Suc w))\<rparr>
     (js ''iVBORw0KGgo='') (0::nat) =
   (None, [GenerateVideos, Sleep 10000, GetVideosOperation, Sleep 10000, GetVideosOperation,
           Sleep 10000, GetVideosOperation])"
  using polling_is_unbounded [of
     "\<lparr>generateVideos = (\<lambda>base64MapImage w. (Inr \<lparr>isDone = None, response = None\<rparr>, w)),
      getVideosOperation =
        (\<lambda>operation w. (Inr \<lparr>isDone = Some False, response = None\<rparr>, Suc w))\<rparr>"
     "js ''iVBORw0KGgo=''" "0::nat" "\<lparr>isDone = None, response = None\<rparr>" 0 3]
  by (simp add: notDone_def numeral_3_eq_3)

text \<open>
  C3. An operation that is done and has no response: the error thrown for it inside the
  \<^verbatim>\<open>try\<close> block is caught by the \<^verbatim>\<open>catch\<close> block of the same function, so that the
  caller receives the message of a failed submission. No run of \<open>generateRouteVideo\<close>
  throws the message written for a completed operation without a link.
\<close>

theorem completed_without_link_message:
  "generateRouteVideo n
     \<lparr>generateVideos =
        (\<lambda>base64MapImage w. (Inr \<lparr>isDone = Some True, response = None\<rparr>, w)),
      getVideosOperation = (\<lambda>operation w. (Inl NotAnError, w))\<rparr>
     (js ''iVBORw0KGgo='') () =
     (Some (Inl (js ''Failed to generate video. The AI model may be busy or an error occurred.'')),
      [GenerateVideos])
   \<and> generateRouteVideo n
     \<lparr>generateVideos = (\<lambda>base64MapImage w. (Inl (Error (js ''fetch failed'')), w)),
      getVideosOperation = (\<lambda>operation w. (Inl NotAnError, w))\<rparr>
     (js ''iVBORw0KGgo='') () =
     (Some (Inl (js ''Failed to generate video. The AI model may be busy or an error occurred.'')),
      [GenerateVideos])
   \<and> fst (generateRouteVideo k svc base64MapImage w) \<noteq>
     Some (Inl (js ''Video generation completed, but no download link was found.''))"
proof -
  have "\<not> includesStr (js ''fetch failed'') (js ''API key not valid'')"
    by (simp add: js_def startsWith_def)
  then have "catchBlock (Error (js ''fetch failed'')) =
      js ''Failed to generate video. The AI model may be busy or an error occurred.''"
    by (simp add: catchBlock_def)
  then have 1: "generateRouteVideo n
     \<lparr>generateVideos =
        (\<lambda>base64MapImage w. (Inr \<lparr>isDone = Some True, response = None\<rparr>, w)),
      getVideosOperation = (\<lambda>operation w. (Inl NotAnError, w))\<rparr>
     (js ''iVBORw0KGgo='') () =
     (Some (Inl (js ''Failed to generate video. The AI model may be busy or an error occurred.'')),
      [GenerateVideos])
   \<and> generateRouteVideo n
     \<lparr>generateVideos = (\<lambda>base64MapImage w. (Inl (Error (js ''fetch failed'')), w)),
      getVideosOperation = (\<lambda>operation w. (Inl NotAnError, w))\<rparr>
     (js ''iVBORw0KGgo='') () =
     (Some (Inl (js ''Failed to generate video. The AI model may be busy or an error occurred.'')),
      [GenerateVideos])"
    by (cases n)
      (simp_all add: generateRouteVideo_def notDone_def downloadLink_def catchBlock_completed)
  have c: "\<And>err. catchBlock err \<noteq>
      js ''Video generation completed, but no download link was found.''"
  proof -
    fix err
    show "catchBlock err \<noteq> js ''Video generation completed, but no download link was found.''"
      by (cases err) (simp_all add: catchBlock_def js_def)
  qed
  have 2: "fst (generateRouteVideo k svc base64MapImage w) \<noteq>
     Some (Inl (js ''Video generation completed, but no download link was found.''))"
    unfolding generateRouteVideo_def
    by (simp add: c split: prod.split sum.split option.split)
  from 1 2 show ?thesis by simp
qed

end
